theory Spec2Isabelle
  imports Complex_Main "HOL-Library.Sublist" "HOL-Library.Word"
begin

section \<open>Python text\<close>

text \<open>
  A Python \<open>str\<close> is a sequence of Unicode code points, so \<open>len\<close> counts code points.
  Text constants of the source are written with \<open>ustr\<close> for their ASCII stretches and
  with the code point numbers of the other symbols.
\<close>

type_synonym pystr = "nat list"

definition ustr :: "string \<Rightarrow> pystr" where
  "ustr s = map of_char s"

text \<open>
  The code points \<open>str.strip()\<close> and \<open>str.split()\<close> treat as whitespace
  (\<open>str.isspace\<close>).
\<close>

definition is_space :: "nat \<Rightarrow> bool" where
  "is_space c \<longleftrightarrow>
     (9 \<le> c \<and> c \<le> 13) \<or> (28 \<le> c \<and> c \<le> 32) \<or> c = 133 \<or> c = 160 \<or> c = 5760 \<or>
     (8192 \<le> c \<and> c \<le> 8202) \<or> c = 8232 \<or> c = 8233 \<or> c = 8239 \<or> c = 8287 \<or> c = 12288"

definition py_strip :: "pystr \<Rightarrow> pystr" where
  "py_strip s = rev (dropWhile is_space (rev (dropWhile is_space s)))"

text \<open>\<open>s.split()\<close>: the maximal runs of non-whitespace, in order; \<open>cur\<close> is the run being read.\<close>

fun split_from :: "pystr \<Rightarrow> pystr \<Rightarrow> pystr list" where
  "split_from cur [] = (if cur = [] then [] else [cur])"
| "split_from cur (c # cs) =
     (if is_space c then (if cur = [] then split_from [] cs else cur # split_from [] cs)
      else split_from (cur @ [c]) cs)"

definition py_split :: "pystr \<Rightarrow> pystr list" where
  "py_split s = split_from [] s"

text \<open>
  \<open>s.lower()\<close> maps \<open>A\<close>..\<open>Z\<close> to \<open>a\<close>..\<open>z\<close> and leaves the other ASCII code points
  alone. What it does to a code point beyond ASCII is decided by the Unicode tables of the
  Python runtime (one code point may become several, and capital sigma depends on its
  neighbours), so it is the parameter \<open>L\<close>: the whole text and a position give the replacement.
\<close>

definition ascii_lower :: "nat \<Rightarrow> nat" where
  "ascii_lower c = (if 65 \<le> c \<and> c \<le> 90 then c + 32 else c)"

fun lower_from :: "(pystr \<Rightarrow> nat \<Rightarrow> pystr) \<Rightarrow> pystr \<Rightarrow> nat \<Rightarrow> pystr \<Rightarrow> pystr" where
  "lower_from L whole i [] = []"
| "lower_from L whole i (c # cs) =
     (if c < 128 then [ascii_lower c] else L whole i) @ lower_from L whole (Suc i) cs"

definition py_lower :: "(pystr \<Rightarrow> nat \<Rightarrow> pystr) \<Rightarrow> pystr \<Rightarrow> pystr" where
  "py_lower L s = lower_from L s 0 s"

text \<open>\<open>s.count(sub)\<close>: the occurrences of \<open>sub\<close> in \<open>s\<close>, left to right, without overlap.\<close>

function py_count :: "pystr \<Rightarrow> pystr \<Rightarrow> nat" where
  "py_count sub s =
     (if sub = [] then Suc (length s)
      else if s = [] then 0
      else if prefix sub s then Suc (py_count sub (drop (length sub) s))
      else py_count sub (tl s))"
  by pat_completeness auto
termination
  by (relation "measure (\<lambda>(sub, s). length s)") auto

declare py_count.simps [simp del]

text \<open>\<open>sep.join(parts)\<close>.\<close>

fun py_join :: "pystr \<Rightarrow> pystr list \<Rightarrow> pystr" where
  "py_join sep [] = []"
| "py_join sep [p] = p"
| "py_join sep (p # q # ps) = p @ sep @ py_join sep (q # ps)"

text \<open>\<open>any(term in s for term in terms)\<close>.\<close>

definition any_in :: "pystr list \<Rightarrow> pystr \<Rightarrow> bool" where
  "any_in terms s = list_ex (\<lambda>t. sublist t s) terms"

section \<open>Values, faults and collaborators\<close>

text \<open>
  A Python \<open>float\<close> is an IEEE double, kept as its 64 bits. \<open>not days\<close> holds of a float
  exactly when it equals zero, which both signed zeros do (and no NaN does).
\<close>

type_synonym pyfloat = "64 word"

definition float_is_zero :: "pyfloat \<Rightarrow> bool" where
  "float_is_zero d \<longleftrightarrow> d = 0 \<or> d = 0x8000000000000000"

text \<open>
  The number a double stands for, when it is finite: sign bit, 11 exponent bits,
  52 fraction bits.
\<close>

definition float_value :: "pyfloat \<Rightarrow> rat option" where
  "float_value d =
     (let e = unat (drop_bit 52 d) mod 2048;
          m = unat d mod 2 ^ 52;
          sgn = (if bit d 63 then - 1 else 1)
      in if e = 2047 then None
         else if e = 0 then Some (sgn * (of_nat m / 2 ^ 1074))
         else if 1075 \<le> e then Some (sgn * (of_nat (2 ^ 52 + m) * 2 ^ (e - 1075)))
         else Some (sgn * (of_nat (2 ^ 52 + m) / 2 ^ (1075 - e))))"

text \<open>
  A raised exception, with the text \<open>str(e)\<close> gives. The handlers tell \<open>ValueError\<close> from
  the rest; \<open>KeyError\<close> is raised by a subscript on the user record and carries the key,
  which \<open>str\<close> shows quoted.
\<close>

datatype pyexn = ValueError pystr | KeyError pystr | Exception pystr

fun exn_str :: "pyexn \<Rightarrow> pystr" where
  "exn_str (ValueError m) = m"
| "exn_str (KeyError k) = [39] @ k @ [39]"
| "exn_str (Exception m) = m"

text \<open>
  The user record is a \<open>Dict\<close> from field names to values. The handlers only interpolate
  the values into text and pass the username on, so a value is kept as the text \<open>str\<close>
  gives it.
\<close>

type_synonym pydict = "(pystr \<times> pystr) list"

definition dict_get :: "pydict \<Rightarrow> pystr \<Rightarrow> pystr \<Rightarrow> pystr" where
  "dict_get d k dflt = (case map_of d k of None \<Rightarrow> dflt | Some v \<Rightarrow> v)"

text \<open>
  The calls that leave the two classes: to the authenticator (the user directory), to the
  data loader or the retriever, to the Gemini model (prompt, temperature,
  \<open>max_output_tokens\<close>) and to \<open>st.warning\<close>. Writes to the log file are left out.
\<close>

datatype call =
    GetAuthenticatedUser
  | ApplyForLeave pystr pyfloat
  | GetRerankedChunks pystr nat
  | RetrieverInvoke pystr
  | GenerateContent pystr pyfloat nat
  | StWarning pystr

text \<open>
  What the collaborators and the Python runtime answer. A collaborator sees the calls made
  so far, so it may answer the same request differently each time; \<open>Inl\<close> is a raised
  exception. \<open>get_authenticated_user\<close> gives \<open>None\<close> or a user record,
  \<open>get_reranked_chunks\<close> and \<open>retriever_invoke\<close> give the \<open>page_content\<close> of each chunk,
  \<open>generate_content\<close> gives \<open>response.text\<close>. \<open>prompt_to_string\<close> is the prompt template of
  \<open>setup_qa_chain\<close> filled with a context and a question and rendered by \<open>to_string\<close>.
  \<open>float_of\<close> is \<open>float(part)\<close>, with \<open>None\<close> for its \<open>ValueError\<close>; \<open>float_str\<close> is the
  text of a float in an f-string; \<open>lower_table\<close> is the parameter of \<open>py_lower\<close>.
\<close>

record env =
  get_authenticated_user :: "call list \<Rightarrow> pyexn + pydict option"
  apply_for_leave :: "call list \<Rightarrow> pystr \<Rightarrow> pyfloat \<Rightarrow> pyexn + bool"
  get_reranked_chunks :: "call list \<Rightarrow> pystr \<Rightarrow> nat \<Rightarrow> pyexn + pystr list"
  retriever_invoke :: "call list \<Rightarrow> pystr \<Rightarrow> pyexn + pystr list"
  generate_content :: "call list \<Rightarrow> pystr \<Rightarrow> pyfloat \<Rightarrow> nat \<Rightarrow> pyexn + pystr"
  prompt_to_string :: "pystr \<Rightarrow> pystr \<Rightarrow> pystr"
  float_of :: "pystr \<Rightarrow> pyfloat option"
  float_str :: "pyfloat \<Rightarrow> pystr"
  lower_table :: "pystr \<Rightarrow> nat \<Rightarrow> pystr"

text \<open>
  The state one query reads and writes: \<open>self.user\<close>, whether the RAG system has its chain
  and a data loader, \<open>st.session_state.user\<close>, and the calls made so far (oldest first).
\<close>

record query_handler =
  user :: pydict
  has_chain :: bool
  has_data_loader :: bool
  session_user :: "pydict option"
  calls :: "call list"

definition record_call :: "call \<Rightarrow> query_handler \<Rightarrow> query_handler" where
  "record_call c h = h\<lparr>calls := calls h @ [c]\<rparr>"

section \<open>The module \<open>config\<close>\<close>

text \<open>The double that the literal \<open>0.3\<close> denotes.\<close>

definition float_0_3 :: pyfloat where
  "float_0_3 = 0x3FD3333333333333"

definition GEMINI_TEMPERATURE :: pyfloat where
  "GEMINI_TEMPERATURE = float_0_3"

definition MIN_LEAVE_DAYS :: rat where
  "MIN_LEAVE_DAYS = 1 / 2"

definition MAX_LEAVE_DAYS :: rat where
  "MAX_LEAVE_DAYS = 30"

definition within_leave_bounds :: "pyfloat \<Rightarrow> bool" where
  "within_leave_bounds d =
     (case float_value d of None \<Rightarrow> False | Some v \<Rightarrow> MIN_LEAVE_DAYS \<le> v \<and> v \<le> MAX_LEAVE_DAYS)"

section \<open>The module \<open>rag_system\<close>\<close>

definition summarization_request :: pystr where
  "summarization_request =
     ustr ''Summarize the following text into 2'' @ [226, 8364, 8220] @
     ustr ''4 concise natural sentences, preserving all key HR policy details, '' @
     ustr ''without using bullets or headings:'' @ [10, 10]"

definition gemini_error :: "pyexn \<Rightarrow> pystr" where
  "gemini_error e = ustr ''Error processing your query: '' @ exn_str e"

text \<open>
  \<open>custom_retriever\<close>: the reranked chunks of the data loader (\<open>top_k=5\<close>) when there is
  one, the documents of the retriever otherwise, joined by a blank line. An exception of
  either leaves the function.
\<close>

definition custom_retriever :: "env \<Rightarrow> query_handler \<Rightarrow> pystr \<Rightarrow> (pyexn + pystr) \<times> query_handler" where
  "custom_retriever E h query =
     (if has_data_loader h then
        (case get_reranked_chunks E (calls h) query 5 of
           Inl e \<Rightarrow> (Inl e, record_call (GetRerankedChunks query 5) h)
         | Inr chunks \<Rightarrow> (Inr (py_join [10, 10] chunks), record_call (GetRerankedChunks query 5) h))
      else
        (case retriever_invoke E (calls h) query of
           Inl e \<Rightarrow> (Inl e, record_call (RetrieverInvoke query) h)
         | Inr docs \<Rightarrow> (Inr (py_join [10, 10] docs), record_call (RetrieverInvoke query) h)))"

text \<open>
  \<open>_invoke_gemini\<close>: the primary call, then the summarization call when the trimmed
  result is long; every exception inside becomes the error text.
\<close>

definition invoke_gemini :: "env \<Rightarrow> query_handler \<Rightarrow> pystr \<Rightarrow> pystr \<times> query_handler" where
  "invoke_gemini E h prompt_str =
     (let h1 = record_call (GenerateContent prompt_str GEMINI_TEMPERATURE 800) h in
      case generate_content E (calls h) prompt_str GEMINI_TEMPERATURE 800 of
        Inl e \<Rightarrow> (gemini_error e, h1)
      | Inr text \<Rightarrow>
          (let result = py_strip text in
           if py_count (ustr ''. '') result > 4 \<or> length result > 600 then
             (let summarization_prompt = summarization_request @ result;
                  h2 = record_call (GenerateContent summarization_prompt float_0_3 400) h1 in
              case generate_content E (calls h1) summarization_prompt float_0_3 400 of
                Inl e \<Rightarrow> (gemini_error e, h2)
              | Inr summary_text \<Rightarrow> (py_strip summary_text, h2))
           else (result, h1)))"

text \<open>The chain of \<open>setup_qa_chain\<close>: context, prompt, model.\<close>

definition chain_invoke :: "env \<Rightarrow> query_handler \<Rightarrow> pystr \<Rightarrow> (pyexn + pystr) \<times> query_handler" where
  "chain_invoke E h question =
     (case custom_retriever E h question of
        (Inl e, h1) \<Rightarrow> (Inl e, h1)
      | (Inr context, h1) \<Rightarrow>
          (case invoke_gemini E h1 (prompt_to_string E context question) of
             (response, h2) \<Rightarrow> (Inr response, h2)))"

text \<open>\<open>query_policy\<close>; the grade is taken and not used.\<close>

definition query_policy :: "env \<Rightarrow> query_handler \<Rightarrow> pystr \<Rightarrow> pystr option \<Rightarrow> pystr \<times> query_handler" where
  "query_policy E h question user_grade =
     (if \<not> has_chain h then (ustr ''System initializing, please wait...'', h)
      else
        (case chain_invoke E h question of
           (Inl e, h1) \<Rightarrow> (gemini_error e, h1)
         | (Inr response, h1) \<Rightarrow> (response, h1)))"

section \<open>The module \<open>query_handler\<close>\<close>

definition hr_contact :: pystr where
  "hr_contact = ustr ''hr@bankname.com''"

text \<open>
  \<open>_refresh_user_data\<close>: a user record that is not empty replaces \<open>self.user\<close> and the one
  of the session; an exception of the authenticator becomes a warning. No caller reads
  what the method returns.
\<close>

definition refresh_user_data :: "env \<Rightarrow> query_handler \<Rightarrow> query_handler" where
  "refresh_user_data E h =
     (let h1 = record_call GetAuthenticatedUser h in
      case get_authenticated_user E (calls h) of
        Inl e \<Rightarrow> record_call (StWarning (ustr ''Could not refresh user data: '' @ exn_str e)) h1
      | Inr None \<Rightarrow> h1
      | Inr (Some updated_user) \<Rightarrow>
          (if updated_user = [] then h1
           else h1\<lparr>user := updated_user, session_user := Some updated_user\<rparr>))"

text \<open>The loop over the parts: the first one that \<open>float\<close> accepts, or \<open>None\<close>.\<close>

fun find_days :: "(pystr \<Rightarrow> pyfloat option) \<Rightarrow> pystr list \<Rightarrow> pyfloat option" where
  "find_days flt [] = None"
| "find_days flt (part # parts) =
     (case flt part of Some d \<Rightarrow> Some d | None \<Rightarrow> find_days flt parts)"

definition usage_guidance :: pystr where
  "usage_guidance =
     [10060] @ ustr '' Please specify leave days like: '' @ [39] @ ustr ''apply for leave 2.5'' @
     [39] @ ustr '' or '' @ [39] @ ustr ''apply for leave 1'' @ [39]"

definition leave_submitted :: "pystr \<Rightarrow> pystr \<Rightarrow> pystr" where
  "leave_submitted days remaining =
     [9989] @ ustr '' **Leave Application Submitted Successfully!**'' @ [10, 10, 128202] @
     ustr '' **Details:**'' @ [10, 8226] @ ustr '' Applied for: **'' @ days @
     ustr '' days**'' @ [10, 8226] @ ustr '' Remaining leaves: **'' @ remaining @
     ustr '' days**'' @ [10, 8226] @ ustr '' Status: **Pending Approval** '' @ [9203, 10, 10] @
     ustr ''You will receive confirmation once your application is reviewed.''"

definition leave_failed :: pystr where
  "leave_failed = [10060] @ ustr '' Leave application failed. Please try again or contact HR.''"

text \<open>The \<open>try\<close> block of \<open>_handle_leave_application\<close>.\<close>

definition leave_application_body :: "env \<Rightarrow> query_handler \<Rightarrow> pystr \<Rightarrow> (pyexn + pystr) \<times> query_handler" where
  "leave_application_body E h query =
     (case find_days (float_of E) (py_split query) of
        None \<Rightarrow> (Inr usage_guidance, h)
      | Some days \<Rightarrow>
          if float_is_zero days then (Inr usage_guidance, h)
          else
            (case map_of (user h) (ustr ''username'') of
               None \<Rightarrow> (Inl (KeyError (ustr ''username'')), h)
             | Some username \<Rightarrow>
                 (let h1 = record_call (ApplyForLeave username days) h in
                  case apply_for_leave E (calls h) username days of
                    Inl e \<Rightarrow> (Inl e, h1)
                  | Inr success \<Rightarrow>
                      if success then
                        (let h2 = refresh_user_data E h1 in
                         (Inr (leave_submitted (float_str E days)
                                 (dict_get (user h2) (ustr ''remaining_leaves'') (ustr ''N/A''))), h2))
                      else (Inr leave_failed, h1))))"

text \<open>\<open>_handle_leave_application\<close>: the body under its two \<open>except\<close> clauses.\<close>

definition handle_leave_application :: "env \<Rightarrow> query_handler \<Rightarrow> pystr \<Rightarrow> pystr \<times> query_handler" where
  "handle_leave_application E h query =
     (case leave_application_body E h query of
        (Inr text, h1) \<Rightarrow> (text, h1)
      | (Inl (ValueError m), h1) \<Rightarrow> ([10060] @ ustr '' **Application Error:** '' @ m, h1)
      | (Inl e, h1) \<Rightarrow> ([10060] @ ustr '' **Failed to apply for leave:** '' @ exn_str e, h1))"

definition balance_line :: "pystr \<Rightarrow> pystr" where
  "balance_line remaining =
     [10, 10, 128188] @ ustr '' **Your current leave balance:** '' @ remaining @ ustr '' days''"

definition refine_fallback :: pystr where
  "refine_fallback =
     [129300] @ ustr '' I couldn'' @ [39] @
     ustr ''t find a clear answer to your question in the bank policies. '' @
     ustr ''Please contact HR at **'' @ hr_contact @ ustr ''** for assistance.''"

text \<open>\<open>_refine_policy_response\<close>.\<close>

definition refine_policy_response :: "env \<Rightarrow> query_handler \<Rightarrow> pystr \<Rightarrow> pystr" where
  "refine_policy_response E h response =
     (if response = [] \<or> py_strip response = [] then refine_fallback
      else if sublist (ustr ''leave'') (py_lower (lower_table E) response) then
        (case map_of (user h) (ustr ''remaining_leaves'') of
           Some remaining \<Rightarrow> py_strip (response @ balance_line remaining)
         | None \<Rightarrow> py_strip response)
      else py_strip response)"

definition help_response :: pystr where
  "help_response =
     [129302] @ ustr '' **I'' @ [39] @ ustr ''m your Bank Policy Assistant!** Here'' @ [39] @
     ustr ''s what I can help you with:'' @ [10, 10] @ ustr ''**'' @ [128203] @
     ustr '' Policy Questions:**'' @ [10, 8226] @ ustr '' Medical/Health policies'' @
     [10, 8226] @ ustr '' Travel and transport allowances'' @ [10, 8226] @
     ustr '' Loan and advance policies'' @ [10, 8226] @ ustr '' Performance bonuses'' @
     [10, 8226] @ ustr '' Exit procedures'' @ [10, 10] @ ustr ''**'' @ [127807] @
     ustr '' Leave Management:**'' @ [10, 8226] @ ustr '' Check your leave balance'' @
     [10, 8226] @ ustr '' Apply for leave (e.g., '' @ [39] @ ustr ''apply for leave 2'' @
     [39] @ ustr '')'' @ [10, 8226] @ ustr '' Leave policy information'' @ [10, 10] @
     ustr ''**'' @ [128161] @ ustr '' Examples:**'' @ [10, 8226] @ ustr '' '' @ [39] @
     ustr ''What is the medical policy?'' @ [39, 10, 8226] @ ustr '' '' @ [39] @
     ustr ''How do I get travel allowance?'' @ [39, 10, 8226] @ ustr '' '' @ [39] @
     ustr ''Apply for leave 1.5'' @ [39, 10, 8226] @ ustr '' '' @ [39] @
     ustr ''What is my leave balance?'' @ [39, 10, 10] @
     ustr ''Just ask me anything in natural language! '' @ [128522]"

definition balance_reply :: "pystr \<Rightarrow> pystr" where
  "balance_reply remaining =
     [128188] @ ustr '' Your current leave balance: **'' @ remaining @ ustr '' days**''"

definition greeting_reply :: "pystr \<Rightarrow> pystr" where
  "greeting_reply username =
     ustr ''Hello '' @ username @ ustr ''! '' @ [128075] @ ustr '' I'' @ [39] @
     ustr ''m here to help you with bank policy questions and leave applications. '' @
     ustr ''What can I assist you with today?''"

definition thanks_reply :: pystr where
  "thanks_reply =
     ustr ''You'' @ [39] @ ustr ''re welcome! '' @ [128522] @
     ustr '' Feel free to ask me anything else about bank policies or leave applications.''"

definition hr_fallback :: pystr where
  "hr_fallback =
     [129300] @ ustr '' I couldn'' @ [39] @
     ustr ''t find a clear answer to your question in the bank policies. '' @
     ustr ''Please contact HR at **'' @ hr_contact @
     ustr ''** for assistance, or try rephrasing your question.''"

definition query_error :: "pyexn \<Rightarrow> pystr" where
  "query_error e =
     [9888, 65039] @ ustr '' Sorry, there was an error processing your question: '' @ exn_str e"

definition balance_terms :: "pystr list" where
  "balance_terms =
     [ustr ''leave balance'', ustr ''remaining leaves'', ustr ''how many leaves'', ustr ''my leaves'']"

definition greeting_terms :: "pystr list" where
  "greeting_terms =
     [ustr ''hello'', ustr ''hi'', ustr ''hey'', ustr ''good morning'', ustr ''good afternoon'']"

definition help_terms :: "pystr list" where
  "help_terms = [ustr ''help'', ustr ''what can you do'', ustr ''how to use'', ustr ''commands'']"

definition thanks_terms :: "pystr list" where
  "thanks_terms = [ustr ''thank you'', ustr ''thanks'', ustr ''appreciate'']"

text \<open>\<open>not response or not response.strip()\<close>.\<close>

definition is_blank :: "pystr \<Rightarrow> bool" where
  "is_blank response \<longleftrightarrow> response = [] \<or> py_strip response = []"

text \<open>The \<open>try\<close> block of the policy branch of \<open>handle_query\<close>.\<close>

definition policy_body :: "env \<Rightarrow> query_handler \<Rightarrow> pystr \<Rightarrow> (pyexn + pystr) \<times> query_handler" where
  "policy_body E h query =
     (case query_policy E h query (map_of (user h) (ustr ''grade'')) of
        (response, h1) \<Rightarrow>
          (case (if is_blank response
                 then query_policy E h1 query (map_of (user h1) (ustr ''grade''))
                 else (response, h1)) of
             (response2, h2) \<Rightarrow>
               if is_blank response2 then (Inr hr_fallback, h2)
               else (Inr (refine_policy_response E h2 response2), h2)))"

text \<open>
  \<open>handle_query\<close>. \<open>Inl\<close> is an exception that leaves the method: the subscript
  \<open>self.user['username']\<close> of the greeting stands outside every \<open>try\<close>.
\<close>

definition handle_query :: "env \<Rightarrow> query_handler \<Rightarrow> pystr \<Rightarrow> (pyexn + pystr) \<times> query_handler" where
  "handle_query E h query =
     (let query_lower = py_strip (py_lower (lower_table E) query) in
      if prefix (ustr ''apply for leave'') query_lower then
        (case handle_leave_application E h query_lower of (text, h1) \<Rightarrow> (Inr text, h1))
      else if any_in balance_terms query_lower then
        (let h1 = refresh_user_data E h in
         (Inr (balance_reply (dict_get (user h1) (ustr ''remaining_leaves'') (ustr ''N/A''))), h1))
      else if any_in greeting_terms query_lower then
        (case map_of (user h) (ustr ''username'') of
           None \<Rightarrow> (Inl (KeyError (ustr ''username'')), h)
         | Some username \<Rightarrow> (Inr (greeting_reply username), h))
      else if any_in help_terms query_lower then (Inr help_response, h)
      else if any_in thanks_terms query_lower then (Inr thanks_reply, h)
      else
        (case policy_body E h query of
           (Inl e, h1) \<Rightarrow> (Inr (query_error e), h1)
         | (Inr text, h1) \<Rightarrow> (Inr text, h1)))"

section \<open>Intents, call counts and example collaborators\<close>

text \<open>
  The intents of the specification and its priority list, read on the normalized query:
  command prefix, balance keywords, greeting keywords, help keywords, thanks keywords,
  policy question.
\<close>

datatype intent = LeaveApply | LeaveBalance | Greeting | Help | Thanks | PolicyQuery

definition spec_intent :: "pystr \<Rightarrow> intent" where
  "spec_intent nq =
     (if prefix (ustr ''apply for leave'') nq then LeaveApply
      else if any_in balance_terms nq then LeaveBalance
      else if any_in greeting_terms nq then Greeting
      else if any_in help_terms nq then Help
      else if any_in thanks_terms nq then Thanks
      else PolicyQuery)"

definition normalized :: "env \<Rightarrow> pystr \<Rightarrow> pystr" where
  "normalized E query = py_strip (py_lower (lower_table E) query)"

fun is_llm_call :: "call \<Rightarrow> bool" where
  "is_llm_call (GenerateContent p t m) = True"
| "is_llm_call c = False"

fun is_retrieval_call :: "call \<Rightarrow> bool" where
  "is_retrieval_call (GetRerankedChunks q k) = True"
| "is_retrieval_call (RetrieverInvoke q) = True"
| "is_retrieval_call c = False"

fun is_leave_call :: "call \<Rightarrow> bool" where
  "is_leave_call (ApplyForLeave u d) = True"
| "is_leave_call c = False"

definition llm_calls :: "query_handler \<Rightarrow> nat" where
  "llm_calls h = length (filter is_llm_call (calls h))"

definition retrieval_calls :: "query_handler \<Rightarrow> nat" where
  "retrieval_calls h = length (filter is_retrieval_call (calls h))"

definition leave_calls :: "query_handler \<Rightarrow> call list" where
  "leave_calls h = filter is_leave_call (calls h)"

text \<open>
  Collaborators for the examples. \<open>example_float\<close> is \<open>float\<close> on the tokens the examples
  use: \<open>0\<close> and \<open>0.0\<close> are zero, \<open>0.25\<close>, \<open>2.5\<close> and \<open>100\<close> are themselves, and the words
  (\<open>apply\<close>, \<open>for\<close>, \<open>leave\<close>, \<open>please\<close>, \<open>soon\<close>) raise \<open>ValueError\<close>. The directory
  accepts every application and reports eight remaining days; the model answers with a text
  of five sentence ends, and with nothing when asked to summarize; \<open>lower\<close> leaves the code
  points beyond ASCII as they are.
\<close>

definition example_float :: "pystr \<Rightarrow> pyfloat option" where
  "example_float part =
     (if part = ustr ''0'' \<or> part = ustr ''0.0'' then Some 0
      else if part = ustr ''0.25'' then Some 0x3FD0000000000000
      else if part = ustr ''2.5'' then Some 0x4004000000000000
      else if part = ustr ''100'' then Some 0x4059000000000000
      else None)"

definition example_float_str :: "pyfloat \<Rightarrow> pystr" where
  "example_float_str d =
     (if d = 0x3FD0000000000000 then ustr ''0.25''
      else if d = 0x4004000000000000 then ustr ''2.5''
      else if d = 0x4059000000000000 then ustr ''100.0''
      else ustr ''0.0'')"

definition example_user :: pydict where
  "example_user = [(ustr ''username'', ustr ''alice''), (ustr ''remaining_leaves'', ustr ''5'')]"

definition example_env :: env where
  "example_env =
     \<lparr> get_authenticated_user =
         (\<lambda>tr. Inr (Some [(ustr ''username'', ustr ''alice''), (ustr ''remaining_leaves'', ustr ''8'')])),
       apply_for_leave = (\<lambda>tr username days. Inr True),
       get_reranked_chunks = (\<lambda>tr query k. Inr [ustr ''Annual leave is 20 days.'']),
       retriever_invoke = (\<lambda>tr query. Inr [ustr ''Annual leave is 20 days.'']),
       generate_content =
         (\<lambda>tr prompt t m. if m = 800 then Inr (ustr ''a. b. c. d. e. f'') else Inr []),
       prompt_to_string = (\<lambda>context question. context @ [10] @ question),
       float_of = example_float,
       float_str = example_float_str,
       lower_table = (\<lambda>whole i. [whole ! i]) \<rparr>"

definition example_handler :: query_handler where
  "example_handler =
     \<lparr> user = example_user, has_chain = True, has_data_loader = False,
       session_user = Some example_user, calls = [] \<rparr>"

text \<open>
  The phrases the balance route is checked on: the question of the specification and the
  four balance keywords themselves.
\<close>

definition balance_phrases :: "pystr list" where
  "balance_phrases = ustr ''what is my leave balance'' # balance_terms"

text \<open>A model that is verbose at first and short when asked to summarize.\<close>

definition verbose_env :: env where
  "verbose_env =
     example_env\<lparr>generate_content :=
       (\<lambda>tr prompt t m. if m = 800 then Inr (ustr ''  a. b. c. d. e. f '') else Inr (ustr '' Short. ''))\<rparr>"

section \<open>Text lemmas\<close>

lemma lower_from_append:
  "lower_from L w i (xs @ ys) = lower_from L w i xs @ lower_from L w (i + length xs) ys"
  by (induction xs arbitrary: i) simp_all

lemma lower_from_fixed:
  "\<forall>j<length xs. 128 \<le> xs ! j \<longrightarrow> L w (i + j) = [xs ! j] \<Longrightarrow>
   lower_from L w i xs = map ascii_lower xs"
proof (induction xs arbitrary: i)
  case Nil
  then show ?case by simp
next
  case (Cons c cs)
  have "\<forall>j<length cs. 128 \<le> cs ! j \<longrightarrow> L w (Suc i + j) = [cs ! j]"
    using Cons.prems by (auto dest: spec [where x = "Suc j" for j])
  then have t: "lower_from L w (Suc i) cs = map ascii_lower cs" by (rule Cons.IH)
  have "128 \<le> c \<Longrightarrow> L w i = [c]" using Cons.prems by (auto dest: spec [where x = 0])
  then show ?case using t by (auto simp: ascii_lower_def)
qed

lemma lower_from_ascii:
  "\<forall>c\<in>set xs. c < 128 \<Longrightarrow> lower_from L w i xs = map ascii_lower xs"
  by (rule lower_from_fixed) (auto simp: not_le [symmetric])

lemma ascii_lower_space: "is_space c \<Longrightarrow> ascii_lower c = c"
  by (auto simp: ascii_lower_def is_space_def)

lemma py_strip_core:
  assumes "t \<noteq> []" "\<not> is_space (hd t)" "\<not> is_space (last t)"
    and "\<forall>c\<in>set ws1. is_space c" "\<forall>c\<in>set ws2. is_space c"
  shows "py_strip (ws1 @ t @ ws2) = t"
proof -
  have a: "dropWhile is_space (ws1 @ t @ ws2) = t @ ws2"
    using assms by (cases t) (simp_all add: dropWhile_append2)
  have "dropWhile is_space (rev ws2 @ rev t) = dropWhile is_space (rev t)"
    by (rule dropWhile_append2) (use assms in auto)
  also have "\<dots> = rev t"
    using assms by (cases "rev t") (auto simp: hd_rev)
  finally show ?thesis by (simp add: py_strip_def a)
qed

lemma py_strip_Nil_iff: "py_strip s = [] \<longleftrightarrow> (\<forall>c\<in>set s. is_space c)"
proof
  assume "py_strip s = []"
  then have "dropWhile is_space (rev (dropWhile is_space s)) = []" by (simp add: py_strip_def)
  then have "\<forall>c\<in>set (rev (dropWhile is_space s)). is_space c" by (simp add: dropWhile_eq_Nil_conv)
  then have "dropWhile is_space s = []"
    by (metis hd_dropWhile list.set_sel(1) set_rev)
  then show "\<forall>c\<in>set s. is_space c" by (simp add: dropWhile_eq_Nil_conv)
next
  assume "\<forall>c\<in>set s. is_space c"
  then show "py_strip s = []" by (auto simp: py_strip_def dest: set_dropWhileD)
qed

lemma py_strip_keeps_last:
  assumes "b \<noteq> []" "\<not> is_space (last b)"
  shows "py_strip (a @ b) = dropWhile is_space (a @ b)"
proof -
  let ?d = "dropWhile is_space (a @ b)"
  have ne: "?d \<noteq> []"
    using assms by (metis Un_iff dropWhile_eq_Nil_conv last_in_set set_append)
  have "last ?d = last (a @ b)"
    using ne by (metis last_appendR takeWhile_dropWhile_id)
  then have "\<not> is_space (hd (rev ?d))"
    using assms ne by (simp add: hd_rev)
  then have "dropWhile is_space (rev ?d) = rev ?d"
    using ne by (cases "rev ?d") auto
  then show ?thesis by (simp add: py_strip_def)
qed

section \<open>Intent routing\<close>

lemma balance_phrases_facts:
  "\<forall>t\<in>set balance_phrases.
     (\<forall>c\<in>set t. c < 128) \<and> t \<noteq> [] \<and> \<not> is_space (hd t) \<and> \<not> is_space (last t) \<and>
     \<not> prefix (ustr ''apply for leave'') t \<and> any_in balance_terms t"
  by (simp add: balance_phrases_def balance_terms_def ustr_def is_space_def any_in_def
      sublist_code prefix_code)

lemma normalized_variant:
  assumes ws: "\<forall>c\<in>set ws1 \<union> set ws2. is_space c"
    and fixed: "\<forall>i<length (ws1 @ s @ ws2).
        128 \<le> (ws1 @ s @ ws2) ! i \<longrightarrow> lower_table E (ws1 @ s @ ws2) i = [(ws1 @ s @ ws2) ! i]"
    and s: "map ascii_lower s = t"
    and core: "t \<noteq> []" "\<not> is_space (hd t)" "\<not> is_space (last t)"
  shows "normalized E (ws1 @ s @ ws2) = t"
proof -
  have w1: "map ascii_lower ws1 = ws1" and w2: "map ascii_lower ws2 = ws2"
    using ws by (simp_all add: map_idI ascii_lower_space)
  have "py_lower (lower_table E) (ws1 @ s @ ws2) = map ascii_lower (ws1 @ s @ ws2)"
    unfolding py_lower_def using fixed by (intro lower_from_fixed) simp
  also have "\<dots> = ws1 @ t @ ws2" using s w1 w2 by simp
  finally show ?thesis
    using ws core by (simp add: normalized_def py_strip_core)
qed

lemma handle_query_routes:
  "handle_query E h query =
     (case spec_intent (normalized E query) of
        LeaveApply \<Rightarrow>
          (case handle_leave_application E h (normalized E query) of (text, h1) \<Rightarrow> (Inr text, h1))
      | LeaveBalance \<Rightarrow>
          (let h1 = refresh_user_data E h in
           (Inr (balance_reply (dict_get (user h1) (ustr ''remaining_leaves'') (ustr ''N/A''))), h1))
      | Greeting \<Rightarrow>
          (case map_of (user h) (ustr ''username'') of
             None \<Rightarrow> (Inl (KeyError (ustr ''username'')), h)
           | Some username \<Rightarrow> (Inr (greeting_reply username), h))
      | Help \<Rightarrow> (Inr help_response, h)
      | Thanks \<Rightarrow> (Inr thanks_reply, h)
      | PolicyQuery \<Rightarrow>
          (case policy_body E h query of
             (Inl e, h1) \<Rightarrow> (Inr (query_error e), h1)
           | (Inr text, h1) \<Rightarrow> (Inr text, h1)))"
  by (simp add: handle_query_def spec_intent_def normalized_def Let_def)

text \<open>
  Claim C2. \<open>handle_query\<close> routes by the intent that the priority list of the
  specification gives the lower-cased, trimmed query, whatever the state of the handler:
  command prefix first, then the balance keywords, the greeting, help and thanks keywords,
  and the policy question last. The intent is a function of the normalized query alone, so
  the same query has the same intent at every call. Every casing of
  \<open>what is my leave balance\<close> and of each of the four balance keywords, with any
  whitespace around it, has the intent \<open>LeaveBalance\<close>; whitespace beyond ASCII is taken to
  have no lower case of its own.
\<close>

theorem intent_priority:
  "handle_query E h query =
     (case spec_intent (normalized E query) of
        LeaveApply \<Rightarrow>
          (case handle_leave_application E h (normalized E query) of (text, h1) \<Rightarrow> (Inr text, h1))
      | LeaveBalance \<Rightarrow>
          (let h1 = refresh_user_data E h in
           (Inr (balance_reply (dict_get (user h1) (ustr ''remaining_leaves'') (ustr ''N/A''))), h1))
      | Greeting \<Rightarrow>
          (case map_of (user h) (ustr ''username'') of
             None \<Rightarrow> (Inl (KeyError (ustr ''username'')), h)
           | Some username \<Rightarrow> (Inr (greeting_reply username), h))
      | Help \<Rightarrow> (Inr help_response, h)
      | Thanks \<Rightarrow> (Inr thanks_reply, h)
      | PolicyQuery \<Rightarrow>
          (case policy_body E h query of
             (Inl e, h1) \<Rightarrow> (Inr (query_error e), h1)
           | (Inr text, h1) \<Rightarrow> (Inr text, h1)))
   \<and> (\<forall>ws1 s ws2.
        (\<forall>c\<in>set ws1 \<union> set ws2. is_space c) \<and>
        (\<forall>i<length (ws1 @ s @ ws2).
           128 \<le> (ws1 @ s @ ws2) ! i \<longrightarrow> lower_table E (ws1 @ s @ ws2) i = [(ws1 @ s @ ws2) ! i]) \<and>
        map ascii_lower s \<in> set balance_phrases
        \<longrightarrow> spec_intent (normalized E (ws1 @ s @ ws2)) = LeaveBalance)"
proof (intro conjI allI impI)
  show "handle_query E h query =
     (case spec_intent (normalized E query) of
        LeaveApply \<Rightarrow>
          (case handle_leave_application E h (normalized E query) of (text, h1) \<Rightarrow> (Inr text, h1))
      | LeaveBalance \<Rightarrow>
          (let h1 = refresh_user_data E h in
           (Inr (balance_reply (dict_get (user h1) (ustr ''remaining_leaves'') (ustr ''N/A''))), h1))
      | Greeting \<Rightarrow>
          (case map_of (user h) (ustr ''username'') of
             None \<Rightarrow> (Inl (KeyError (ustr ''username'')), h)
           | Some username \<Rightarrow> (Inr (greeting_reply username), h))
      | Help \<Rightarrow> (Inr help_response, h)
      | Thanks \<Rightarrow> (Inr thanks_reply, h)
      | PolicyQuery \<Rightarrow>
          (case policy_body E h query of
             (Inl e, h1) \<Rightarrow> (Inr (query_error e), h1)
           | (Inr text, h1) \<Rightarrow> (Inr text, h1)))"
    by (rule handle_query_routes)
next
  fix ws1 s ws2
  assume a: "(\<forall>c\<in>set ws1 \<union> set ws2. is_space c) \<and>
        (\<forall>i<length (ws1 @ s @ ws2).
           128 \<le> (ws1 @ s @ ws2) ! i \<longrightarrow> lower_table E (ws1 @ s @ ws2) i = [(ws1 @ s @ ws2) ! i]) \<and>
        map ascii_lower s \<in> set balance_phrases"
  define t where "t = map ascii_lower s"
  have t: "t \<in> set balance_phrases" using a by (simp add: t_def)
  note f = balance_phrases_facts [rule_format, OF t]
  have "normalized E (ws1 @ s @ ws2) = t"
    using a f by (intro normalized_variant) (simp_all add: t_def)
  then show "spec_intent (normalized E (ws1 @ s @ ws2)) = LeaveBalance"
    using f by (simp add: spec_intent_def)
qed

theorem intent_priority_witness:
  "list_all is_space ([160, 32] @ [10]) \<and>
   map ascii_lower (ustr ''What Is MY Leave Balance'') \<in> set balance_phrases \<and>
   spec_intent (normalized example_env ([160, 32] @ ustr ''What Is MY Leave Balance'' @ [10])) = LeaveBalance"
proof -
  have a: "(\<forall>c\<in>set [160, 32] \<union> set [10]. is_space c) \<and>
     (\<forall>i<length ([160, 32] @ ustr ''What Is MY Leave Balance'' @ [10]).
        128 \<le> ([160, 32] @ ustr ''What Is MY Leave Balance'' @ [10]) ! i \<longrightarrow>
        lower_table example_env ([160, 32] @ ustr ''What Is MY Leave Balance'' @ [10]) i =
          [([160, 32] @ ustr ''What Is MY Leave Balance'' @ [10]) ! i]) \<and>
     map ascii_lower (ustr ''What Is MY Leave Balance'') \<in> set balance_phrases"
    by (simp add: example_env_def is_space_def)
       (simp add: ustr_def ascii_lower_def balance_phrases_def balance_terms_def)
  from intent_priority [of example_env example_handler "[]", THEN conjunct2, rule_format, OF a] a
  show ?thesis by (simp add: list_all_iff)
qed

section \<open>The leave workflow\<close>

lemma find_days_first:
  "\<forall>t\<in>set before. flt t = None \<Longrightarrow> flt tok = Some d \<Longrightarrow>
   find_days flt (before @ tok # after) = Some d"
  by (induction before) simp_all

lemma find_days_none: "\<forall>t\<in>set parts. flt t = None \<Longrightarrow> find_days flt parts = None"
  by (induction parts) simp_all

lemma handle_query_leave:
  "prefix (ustr ''apply for leave'') (normalized E query) \<Longrightarrow>
   handle_query E h query =
     (Inr (fst (handle_leave_application E h (normalized E query))),
      snd (handle_leave_application E h (normalized E query)))"
  by (simp add: handle_query_def normalized_def Let_def split: prod.split)

lemma calls_record_call [simp]: "calls (record_call c h) = calls h @ [c]"
  by (simp add: record_call_def)

lemma user_record_call [simp]: "user (record_call c h) = user h"
  by (simp add: record_call_def)

lemma calls_refresh_user_data:
  "calls (refresh_user_data E h) = calls h @ [GetAuthenticatedUser] \<or>
   (\<exists>m. calls (refresh_user_data E h) = calls h @ [GetAuthenticatedUser, StWarning m])"
  by (simp add: refresh_user_data_def Let_def split: sum.split option.split)

lemma leave_calls_refresh [simp]: "leave_calls (refresh_user_data E h) = leave_calls h"
  using calls_refresh_user_data [of E h] by (auto simp: leave_calls_def)

lemma leave_guidance_when_none:
  "find_days (float_of E) (py_split nq) = None \<Longrightarrow>
   handle_leave_application E h nq = (usage_guidance, h)"
  by (simp add: handle_leave_application_def leave_application_body_def)

lemma leave_guidance_when_zero:
  "find_days (float_of E) (py_split nq) = Some d \<Longrightarrow> float_is_zero d \<Longrightarrow>
   handle_leave_application E h nq = (usage_guidance, h)"
  by (simp add: handle_leave_application_def leave_application_body_def)

lemma leave_body_found:
  assumes "find_days (float_of E) (py_split nq) = Some d" "\<not> float_is_zero d"
    and "map_of (user h) (ustr ''username'') = Some username"
  shows "leave_application_body E h nq =
     (case apply_for_leave E (calls h) username d of
        Inl e \<Rightarrow> (Inl e, record_call (ApplyForLeave username d) h)
      | Inr success \<Rightarrow>
          if success then
            (Inr (leave_submitted (float_str E d)
               (dict_get (user (refresh_user_data E (record_call (ApplyForLeave username d) h)))
                  (ustr ''remaining_leaves'') (ustr ''N/A''))),
             refresh_user_data E (record_call (ApplyForLeave username d) h))
          else (Inr leave_failed, record_call (ApplyForLeave username d) h))"
  using assms by (simp add: leave_application_body_def Let_def split: sum.split)

lemma leave_found_calls:
  assumes "find_days (float_of E) (py_split nq) = Some d" "\<not> float_is_zero d"
    and "map_of (user h) (ustr ''username'') = Some username"
  shows "\<exists>rest. calls (snd (handle_leave_application E h nq)) = calls h @ ApplyForLeave username d # rest
           \<and> filter is_leave_call rest = []"
proof (cases "apply_for_leave E (calls h) username d")
  case (Inl e)
  then show ?thesis
    using assms by (cases e) (simp_all add: handle_leave_application_def leave_body_found)
next
  case (Inr success)
  show ?thesis
  proof (cases success)
    case True
    then show ?thesis
      using assms Inr calls_refresh_user_data [of E "record_call (ApplyForLeave username d) h"]
      by (auto simp: handle_leave_application_def leave_body_found)
  next
    case False
    then show ?thesis
      using assms Inr by (simp add: handle_leave_application_def leave_body_found)
  qed
qed

lemmas example_eval =
  ustr_def py_strip_def py_split_def is_space_def py_lower_def ascii_lower_def normalized_def
  prefix_code sublist_code any_in_def example_env_def example_handler_def example_user_def
  example_float_def example_float_str_def float_is_zero_def

lemma example_bounds:
  "\<not> within_leave_bounds 0x4059000000000000" "\<not> within_leave_bounds 0x3FD0000000000000"
  "within_leave_bounds 0x4004000000000000"
  by (simp_all add: within_leave_bounds_def float_value_def MIN_LEAVE_DAYS_def MAX_LEAVE_DAYS_def)

text \<open>
  Claim C3, amended. For a query whose normalized form starts with \<open>apply for leave\<close> and a
  user record with a username, the tokens are scanned left to right: when the first token
  that \<open>float\<close> accepts is a number other than zero, \<open>apply_for_leave\<close> is called once, with
  the username and exactly that number; when no token parses, the usage guidance is returned,
  the state is untouched and the directory is not called.
\<close>

theorem leave_days_scan:
  assumes "prefix (ustr ''apply for leave'') (normalized E query)"
  shows "(\<forall>before tok after d username.
            py_split (normalized E query) = before @ tok # after \<and>
            (\<forall>t\<in>set before. float_of E t = None) \<and> float_of E tok = Some d \<and>
            \<not> float_is_zero d \<and> map_of (user h) (ustr ''username'') = Some username
            \<longrightarrow> leave_calls (snd (handle_query E h query)) = leave_calls h @ [ApplyForLeave username d])
       \<and> ((\<forall>t\<in>set (py_split (normalized E query)). float_of E t = None)
            \<longrightarrow> handle_query E h query = (Inr usage_guidance, h))"
proof (intro conjI allI impI)
  fix before tok after d username
  assume a: "py_split (normalized E query) = before @ tok # after \<and>
            (\<forall>t\<in>set before. float_of E t = None) \<and> float_of E tok = Some d \<and>
            \<not> float_is_zero d \<and> map_of (user h) (ustr ''username'') = Some username"
  then have f: "find_days (float_of E) (py_split (normalized E query)) = Some d"
    by (simp add: find_days_first)
  from leave_found_calls [OF f] a obtain rest where
    "calls (snd (handle_leave_application E h (normalized E query))) = calls h @ ApplyForLeave username d # rest"
    "filter is_leave_call rest = []"
    by blast
  then show "leave_calls (snd (handle_query E h query)) = leave_calls h @ [ApplyForLeave username d]"
    using assms by (simp add: handle_query_leave leave_calls_def)
next
  assume "\<forall>t\<in>set (py_split (normalized E query)). float_of E t = None"
  then have "find_days (float_of E) (py_split (normalized E query)) = None"
    by (rule find_days_none)
  then show "handle_query E h query = (Inr usage_guidance, h)"
    using assms by (simp add: handle_query_leave leave_guidance_when_none)
qed

theorem leave_days_scan_witness:
  "leave_calls (snd (handle_query example_env example_handler (ustr ''Apply for leave 2.5 please'')))
     = [ApplyForLeave (ustr ''alice'') 0x4004000000000000] \<and>
   handle_query example_env example_handler (ustr ''apply for leave soon'') = (Inr usage_guidance, example_handler)"
proof -
  have p1: "prefix (ustr ''apply for leave'') (normalized example_env (ustr ''Apply for leave 2.5 please''))"
    by (simp add: example_eval)
  have a1: "py_split (normalized example_env (ustr ''Apply for leave 2.5 please'')) =
       [ustr ''apply'', ustr ''for'', ustr ''leave''] @ ustr ''2.5'' # [ustr ''please''] \<and>
     (\<forall>t\<in>set [ustr ''apply'', ustr ''for'', ustr ''leave'']. float_of example_env t = None) \<and>
     float_of example_env (ustr ''2.5'') = Some 0x4004000000000000 \<and>
     \<not> float_is_zero 0x4004000000000000 \<and>
     map_of (user example_handler) (ustr ''username'') = Some (ustr ''alice'')"
    by (simp add: example_eval)
  have p2: "prefix (ustr ''apply for leave'') (normalized example_env (ustr ''apply for leave soon''))"
    by (simp add: example_eval)
  have a2: "\<forall>t\<in>set (py_split (normalized example_env (ustr ''apply for leave soon''))). float_of example_env t = None"
    by (simp add: example_eval)
  have l: "leave_calls example_handler = []"
    by (simp add: leave_calls_def example_handler_def)
  from leave_days_scan [OF p1, of example_handler, THEN conjunct1, rule_format, OF a1]
       leave_days_scan [OF p2, of example_handler, THEN conjunct2, THEN mp, OF a2] l
  show ?thesis by simp
qed

text \<open>
  The claim as it stands fails at \<open>apply for leave 0\<close>: the first token that parses is \<open>0\<close>,
  yet the directory is not called with it and the usage guidance comes back.
\<close>

theorem leave_days_scan_counterexample:
  "prefix (ustr ''apply for leave'') (normalized example_env (ustr ''apply for leave 0'')) \<and>
   py_split (normalized example_env (ustr ''apply for leave 0'')) =
     [ustr ''apply'', ustr ''for'', ustr ''leave'', ustr ''0''] \<and>
   float_of example_env (ustr ''apply'') = None \<and> float_of example_env (ustr ''for'') = None \<and>
   float_of example_env (ustr ''leave'') = None \<and> float_of example_env (ustr ''0'') = Some 0 \<and>
   handle_query example_env example_handler (ustr ''apply for leave 0'') = (Inr usage_guidance, example_handler) \<and>
   leave_calls (snd (handle_query example_env example_handler (ustr ''apply for leave 0''))) = []"
  by (simp add: example_eval handle_query_def handle_leave_application_def
      leave_application_body_def leave_calls_def)

text \<open>
  Claim C10. When the first token that \<open>float\<close> accepts parses to zero (either signed zero),
  the workflow returns the usage guidance and leaves the state as it was, so the directory
  is not called; this is the result the same query has when no token parses at all.
\<close>

theorem zero_days_is_no_days:
  assumes "prefix (ustr ''apply for leave'') (normalized E query)"
    and "py_split (normalized E query) = before @ tok # after"
    and "\<forall>t\<in>set before. float_of E t = None"
    and "float_of E tok = Some d"
    and "float_is_zero d"
  shows "handle_query E h query = (Inr usage_guidance, h) \<and>
         handle_query E h query = handle_query (E\<lparr>float_of := \<lambda>part. None\<rparr>) h query"
proof -
  have f: "find_days (float_of E) (py_split (normalized E query)) = Some d"
    using assms by (simp add: find_days_first)
  have r: "handle_query E h query = (Inr usage_guidance, h)"
    using assms(1,5) f by (simp add: handle_query_leave leave_guidance_when_zero)
  let ?E = "E\<lparr>float_of := \<lambda>part. None\<rparr>"
  have n: "normalized ?E query = normalized E query"
    by (simp add: normalized_def)
  have "find_days (float_of ?E) (py_split (normalized ?E query)) = None"
    by (simp add: find_days_none)
  then have "handle_query ?E h query = (Inr usage_guidance, h)"
    using assms(1) n by (simp add: handle_query_leave leave_guidance_when_none)
  with r show ?thesis by simp
qed

theorem zero_days_is_no_days_witness:
  "handle_query example_env example_handler (ustr ''apply for leave 0.0'') = (Inr usage_guidance, example_handler)"
proof -
  have p: "prefix (ustr ''apply for leave'') (normalized example_env (ustr ''apply for leave 0.0''))"
    by (simp add: example_eval)
  have s: "py_split (normalized example_env (ustr ''apply for leave 0.0'')) =
       [ustr ''apply'', ustr ''for'', ustr ''leave''] @ ustr ''0.0'' # []"
    by (simp add: example_eval)
  have b: "\<forall>t\<in>set [ustr ''apply'', ustr ''for'', ustr ''leave'']. float_of example_env t = None"
    by (simp add: example_eval)
  have t: "float_of example_env (ustr ''0.0'') = Some 0" by (simp add: example_eval)
  have z: "float_is_zero 0" by (simp add: float_is_zero_def)
  from zero_days_is_no_days [OF p s b t z, of example_handler] show ?thesis by simp
qed

text \<open>
  Claim C8. A day count that the workflow passes on is not compared with
  \<open>MIN_LEAVE_DAYS\<close> and \<open>MAX_LEAVE_DAYS\<close>: whatever number other than zero the scan finds,
  also one below 0.5 or above 30, the next call is \<open>apply_for_leave\<close> with the username
  and that number unchanged.
\<close>

theorem leave_bounds_not_enforced:
  assumes "prefix (ustr ''apply for leave'') (normalized E query)"
    and "py_split (normalized E query) = before @ tok # after"
    and "\<forall>t\<in>set before. float_of E t = None"
    and "float_of E tok = Some d"
    and "\<not> float_is_zero d"
    and "map_of (user h) (ustr ''username'') = Some username"
  shows "\<exists>rest. calls (snd (handle_query E h query)) = calls h @ ApplyForLeave username d # rest"
proof -
  have f: "find_days (float_of E) (py_split (normalized E query)) = Some d"
    using assms by (simp add: find_days_first)
  from leave_found_calls [OF f assms(5,6)] show ?thesis
    using assms(1) by (auto simp: handle_query_leave)
qed

theorem leave_bounds_not_enforced_witness:
  "\<not> within_leave_bounds 0x4059000000000000 \<and>
   (\<exists>rest. calls (snd (handle_query example_env example_handler (ustr ''apply for leave 100''))) =
      ApplyForLeave (ustr ''alice'') 0x4059000000000000 # rest) \<and>
   \<not> within_leave_bounds 0x3FD0000000000000 \<and>
   (\<exists>rest. calls (snd (handle_query example_env example_handler (ustr ''apply for leave 0.25''))) =
      ApplyForLeave (ustr ''alice'') 0x3FD0000000000000 # rest)"
proof -
  have b: "\<forall>t\<in>set [ustr ''apply'', ustr ''for'', ustr ''leave'']. float_of example_env t = None"
    by (simp add: example_eval)
  have u: "map_of (user example_handler) (ustr ''username'') = Some (ustr ''alice'')"
    by (simp add: example_eval)
  have p1: "prefix (ustr ''apply for leave'') (normalized example_env (ustr ''apply for leave 100''))"
    by (simp add: example_eval)
  have s1: "py_split (normalized example_env (ustr ''apply for leave 100'')) =
       [ustr ''apply'', ustr ''for'', ustr ''leave''] @ ustr ''100'' # []"
    by (simp add: example_eval)
  have t1: "float_of example_env (ustr ''100'') = Some 0x4059000000000000"
    by (simp add: example_eval)
  have z1: "\<not> float_is_zero 0x4059000000000000" by (simp add: float_is_zero_def)
  have p2: "prefix (ustr ''apply for leave'') (normalized example_env (ustr ''apply for leave 0.25''))"
    by (simp add: example_eval)
  have s2: "py_split (normalized example_env (ustr ''apply for leave 0.25'')) =
       [ustr ''apply'', ustr ''for'', ustr ''leave''] @ ustr ''0.25'' # []"
    by (simp add: example_eval)
  have t2: "float_of example_env (ustr ''0.25'') = Some 0x3FD0000000000000"
    by (simp add: example_eval)
  have z2: "\<not> float_is_zero 0x3FD0000000000000" by (simp add: float_is_zero_def)
  have c: "calls example_handler = []" by (simp add: example_handler_def)
  from leave_bounds_not_enforced [OF p1 s1 b t1 z1 u] leave_bounds_not_enforced [OF p2 s2 b t2 z2 u]
    example_bounds(1,2) c
  show ?thesis by simp
qed

text \<open>
  Claim C9. When the directory call of the leave workflow fails, \<open>handle_query\<close> returns
  text: the fixed failure message when \<open>apply_for_leave\<close> returns false, and a failure
  text that ends with the description of the exception, word for word, when it raises.
\<close>

theorem leave_failure_is_text:
  assumes "prefix (ustr ''apply for leave'') (normalized E query)"
    and "py_split (normalized E query) = before @ tok # after"
    and "\<forall>t\<in>set before. float_of E t = None"
    and "float_of E tok = Some d"
    and "\<not> float_is_zero d"
    and "map_of (user h) (ustr ''username'') = Some username"
  shows "(apply_for_leave E (calls h) username d = Inr False
            \<longrightarrow> fst (handle_query E h query) = Inr leave_failed)
       \<and> (\<forall>e. apply_for_leave E (calls h) username d = Inl e
            \<longrightarrow> fst (handle_query E h query) =
                  Inr ((case e of
                          ValueError m \<Rightarrow> [10060] @ ustr '' **Application Error:** ''
                        | _ \<Rightarrow> [10060] @ ustr '' **Failed to apply for leave:** '') @ exn_str e))"
proof -
  have f: "find_days (float_of E) (py_split (normalized E query)) = Some d"
    using assms by (simp add: find_days_first)
  note b = leave_body_found [OF f assms(5,6)]
  show ?thesis
  proof (intro conjI allI impI)
    assume "apply_for_leave E (calls h) username d = Inr False"
    then show "fst (handle_query E h query) = Inr leave_failed"
      using assms(1) by (simp add: handle_query_leave handle_leave_application_def b)
  next
    fix e
    assume "apply_for_leave E (calls h) username d = Inl e"
    then show "fst (handle_query E h query) =
        Inr ((case e of
                ValueError m \<Rightarrow> [10060] @ ustr '' **Application Error:** ''
              | _ \<Rightarrow> [10060] @ ustr '' **Failed to apply for leave:** '') @ exn_str e)"
      using assms(1) by (cases e) (simp_all add: handle_query_leave handle_leave_application_def b)
  qed
qed

theorem leave_failure_is_text_witness:
  "fst (handle_query (example_env\<lparr>apply_for_leave := \<lambda>tr username days. Inr False\<rparr>)
          example_handler (ustr ''apply for leave 2.5'')) = Inr leave_failed \<and>
   fst (handle_query
          (example_env\<lparr>apply_for_leave := \<lambda>tr username days. Inl (Exception (ustr ''sheet not reachable''))\<rparr>)
          example_handler (ustr ''apply for leave 2.5'')) =
     Inr ([10060] @ ustr '' **Failed to apply for leave:** '' @ ustr ''sheet not reachable'')"
proof -
  let ?E1 = "example_env\<lparr>apply_for_leave := \<lambda>tr username days. Inr False\<rparr>"
  let ?E2 = "example_env\<lparr>apply_for_leave := \<lambda>tr username days. Inl (Exception (ustr ''sheet not reachable''))\<rparr>"
  let ?q = "ustr ''apply for leave 2.5''"
  have u: "map_of (user example_handler) (ustr ''username'') = Some (ustr ''alice'')"
    by (simp add: example_eval)
  have z: "\<not> float_is_zero 0x4004000000000000" by (simp add: float_is_zero_def)
  have p1: "prefix (ustr ''apply for leave'') (normalized ?E1 ?q)"
    and s1: "py_split (normalized ?E1 ?q) = [ustr ''apply'', ustr ''for'', ustr ''leave''] @ ustr ''2.5'' # []"
    and b1: "\<forall>t\<in>set [ustr ''apply'', ustr ''for'', ustr ''leave'']. float_of ?E1 t = None"
    and t1: "float_of ?E1 (ustr ''2.5'') = Some 0x4004000000000000"
    by (simp_all add: example_eval)
  have p2: "prefix (ustr ''apply for leave'') (normalized ?E2 ?q)"
    and s2: "py_split (normalized ?E2 ?q) = [ustr ''apply'', ustr ''for'', ustr ''leave''] @ ustr ''2.5'' # []"
    and b2: "\<forall>t\<in>set [ustr ''apply'', ustr ''for'', ustr ''leave'']. float_of ?E2 t = None"
    and t2: "float_of ?E2 (ustr ''2.5'') = Some 0x4004000000000000"
    by (simp_all add: example_eval)
  from leave_failure_is_text [OF p1 s1 b1 t1 z u, THEN conjunct1]
       leave_failure_is_text [OF p2 s2 b2 t2 z u, THEN conjunct2, rule_format,
         of "Exception (ustr ''sheet not reachable'')"]
  show ?thesis by simp
qed

section \<open>Answer synthesis\<close>

lemma custom_retriever_calls:
  "\<exists>c. calls (snd (custom_retriever E h q)) = calls h @ [c] \<and> is_retrieval_call c \<and> \<not> is_llm_call c"
  by (simp add: custom_retriever_def split: sum.split)

lemma custom_retriever_has_chain [simp]:
  "has_chain (snd (custom_retriever E h q)) = has_chain h"
  "user (snd (custom_retriever E h q)) = user h"
  by (simp_all add: custom_retriever_def record_call_def split: sum.split)

lemma invoke_gemini_calls:
  "\<exists>cs. calls (snd (invoke_gemini E h p)) = calls h @ cs \<and> length cs \<le> 2 \<and>
        (\<forall>c\<in>set cs. is_llm_call c \<and> \<not> is_retrieval_call c)"
  by (simp add: invoke_gemini_def Let_def split: sum.split)

lemma invoke_gemini_has_chain [simp]:
  "has_chain (snd (invoke_gemini E h p)) = has_chain h"
  "user (snd (invoke_gemini E h p)) = user h"
  by (simp_all add: invoke_gemini_def record_call_def Let_def split: sum.split)

lemma length_filter_none: "\<forall>c\<in>set cs. \<not> P c \<Longrightarrow> length (filter P cs) = 0"
  by (induction cs) simp_all

lemma chain_invoke_cases:
  obtains (fault) e h1 where "custom_retriever E h q = (Inl e, h1)" "chain_invoke E h q = (Inl e, h1)"
  | (answer) ctx h1 where "custom_retriever E h q = (Inr ctx, h1)"
      "chain_invoke E h q =
         (Inr (fst (invoke_gemini E h1 (prompt_to_string E ctx q))),
          snd (invoke_gemini E h1 (prompt_to_string E ctx q)))"
proof (cases "custom_retriever E h q")
  case (Pair r h1)
  show ?thesis
  proof (cases r)
    case (Inl e)
    with Pair show ?thesis by (intro fault [of e h1]) (simp_all add: chain_invoke_def)
  next
    case (Inr ctx)
    with Pair show ?thesis
      by (intro answer [of ctx h1]) (simp_all add: chain_invoke_def split: prod.split)
  qed
qed

lemma chain_invoke_counts:
  "retrieval_calls (snd (chain_invoke E h q)) = retrieval_calls h + 1 \<and>
   llm_calls (snd (chain_invoke E h q)) \<le> llm_calls h + 2"
proof (cases rule: chain_invoke_cases [of E h q])
  case (fault e h1)
  from custom_retriever_calls [of E h q] fault(1) obtain c where
    "calls h1 = calls h @ [c]" "is_retrieval_call c" "\<not> is_llm_call c" by auto
  then show ?thesis using fault(2) by (simp add: retrieval_calls_def llm_calls_def)
next
  case (answer ctx h1)
  from custom_retriever_calls [of E h q] answer(1) obtain c where
    c: "calls h1 = calls h @ [c]" "is_retrieval_call c" "\<not> is_llm_call c" by auto
  from invoke_gemini_calls [of E h1 "prompt_to_string E ctx q"] obtain cs where
    cs: "calls (snd (invoke_gemini E h1 (prompt_to_string E ctx q))) = calls h1 @ cs"
      "length cs \<le> 2" "\<forall>c\<in>set cs. is_llm_call c \<and> \<not> is_retrieval_call c"
    by auto
  have "length (filter is_llm_call cs) \<le> 2"
    using cs(2) length_filter_le [of is_llm_call cs] by linarith
  moreover have "length (filter is_retrieval_call cs) = 0"
    using cs(3) by (simp add: length_filter_none)
  ultimately show ?thesis
    using c cs(1) answer(2) by (simp add: retrieval_calls_def llm_calls_def)
qed

lemma chain_invoke_keeps [simp]:
  "has_chain (snd (chain_invoke E h q)) = has_chain h"
  "user (snd (chain_invoke E h q)) = user h"
proof -
  have "has_chain (snd (chain_invoke E h q)) = has_chain h \<and> user (snd (chain_invoke E h q)) = user h"
  proof (cases rule: chain_invoke_cases [of E h q])
    case (fault e h1)
    then show ?thesis
      using custom_retriever_has_chain [of E h q] by simp
  next
    case (answer ctx h1)
    then show ?thesis
      using custom_retriever_has_chain [of E h q] by simp
  qed
  then show "has_chain (snd (chain_invoke E h q)) = has_chain h"
    and "user (snd (chain_invoke E h q)) = user h" by simp_all
qed

lemma query_policy_counts:
  "retrieval_calls (snd (query_policy E h q g)) \<le> retrieval_calls h + 1 \<and>
   llm_calls (snd (query_policy E h q g)) \<le> llm_calls h + 2 \<and>
   (has_chain h \<longrightarrow> retrieval_calls (snd (query_policy E h q g)) = retrieval_calls h + 1)"
proof (cases "has_chain h")
  case False
  then show ?thesis by (simp add: query_policy_def)
next
  case True
  have "snd (query_policy E h q g) = snd (chain_invoke E h q)"
    using True by (simp add: query_policy_def split: prod.split sum.split)
  then show ?thesis using chain_invoke_counts [of E h q] by simp
qed

lemma query_policy_keeps [simp]:
  "has_chain (snd (query_policy E h q g)) = has_chain h"
  "user (snd (query_policy E h q g)) = user h"
proof -
  have "snd (query_policy E h q g) = (if has_chain h then snd (chain_invoke E h q) else h)"
    by (simp add: query_policy_def split: prod.split sum.split)
  then show "has_chain (snd (query_policy E h q g)) = has_chain h"
    and "user (snd (query_policy E h q g)) = user h" by simp_all
qed

lemma not_blank_initializing: "\<not> is_blank (ustr ''System initializing, please wait...'')"
  by (simp add: is_blank_def py_strip_Nil_iff ustr_def is_space_def)

lemma blank_needs_chain: "is_blank (fst (query_policy E h q g)) \<Longrightarrow> has_chain h"
  by (cases "has_chain h") (simp_all add: query_policy_def not_blank_initializing)

text \<open>
  Claim C4. In \<open>_invoke_gemini\<close>, when the primary call answers: if the trimmed result has
  more than four occurrences of a period followed by a space, or more than 600 characters,
  exactly one more call is made, the summarization request for that result at temperature
  0.3 with at most 400 output tokens, and its trimmed answer is returned; otherwise the
  trimmed primary result is returned and no other call is made.
\<close>

theorem conciseness_gate:
  assumes "generate_content E (calls h) prompt GEMINI_TEMPERATURE 800 = Inr text"
  shows "(py_count (ustr ''. '') (py_strip text) > 4 \<or> length (py_strip text) > 600 \<longrightarrow>
            calls (snd (invoke_gemini E h prompt)) =
              calls h @ [GenerateContent prompt GEMINI_TEMPERATURE 800,
                         GenerateContent (summarization_request @ py_strip text) float_0_3 400] \<and>
            (\<forall>summary.
               generate_content E (calls h @ [GenerateContent prompt GEMINI_TEMPERATURE 800])
                 (summarization_request @ py_strip text) float_0_3 400 = Inr summary
               \<longrightarrow> fst (invoke_gemini E h prompt) = py_strip summary))
       \<and> (\<not> (py_count (ustr ''. '') (py_strip text) > 4 \<or> length (py_strip text) > 600) \<longrightarrow>
            invoke_gemini E h prompt =
              (py_strip text, record_call (GenerateContent prompt GEMINI_TEMPERATURE 800) h))"
  using assms by (auto simp: invoke_gemini_def Let_def split: sum.split)

theorem conciseness_gate_witness:
  "invoke_gemini verbose_env example_handler (ustr ''q'') =
     (ustr ''Short.'',
      example_handler\<lparr>calls :=
        [GenerateContent (ustr ''q'') GEMINI_TEMPERATURE 800,
         GenerateContent (summarization_request @ ustr ''a. b. c. d. e. f'') float_0_3 400]\<rparr>) \<and>
   invoke_gemini (example_env\<lparr>generate_content := \<lambda>tr prompt t m. Inr (ustr '' Twenty days. '')\<rparr>)
       example_handler (ustr ''q'') =
     (ustr ''Twenty days.'', record_call (GenerateContent (ustr ''q'') GEMINI_TEMPERATURE 800) example_handler)"
proof -
  let ?E2 = "example_env\<lparr>generate_content := \<lambda>tr prompt t m. Inr (ustr '' Twenty days. '')\<rparr>"
  have g1: "generate_content verbose_env (calls example_handler) (ustr ''q'') GEMINI_TEMPERATURE 800
      = Inr (ustr ''  a. b. c. d. e. f '')"
    by (simp add: verbose_env_def)
  have s1: "py_strip (ustr ''  a. b. c. d. e. f '') = ustr ''a. b. c. d. e. f''"
    by (simp add: py_strip_def ustr_def is_space_def)
  have c1: "py_count (ustr ''. '') (ustr ''a. b. c. d. e. f'') = 5"
    by (simp add: py_count.simps ustr_def)
  have g2: "generate_content verbose_env (calls example_handler @ [GenerateContent (ustr ''q'') GEMINI_TEMPERATURE 800])
      (summarization_request @ ustr ''a. b. c. d. e. f'') float_0_3 400 = Inr (ustr '' Short. '')"
    by (simp add: verbose_env_def)
  have s2: "py_strip (ustr '' Short. '') = ustr ''Short.''"
    by (simp add: py_strip_def ustr_def is_space_def)
  have g3: "generate_content ?E2 (calls example_handler) (ustr ''q'') GEMINI_TEMPERATURE 800
      = Inr (ustr '' Twenty days. '')"
    by simp
  have s3: "py_strip (ustr '' Twenty days. '') = ustr ''Twenty days.''"
    by (simp add: py_strip_def ustr_def is_space_def)
  have c3: "py_count (ustr ''. '') (ustr ''Twenty days.'') = 0" "length (ustr ''Twenty days.'') = 12"
    by (simp_all add: py_count.simps ustr_def)
  have e: "calls example_handler = []" by (simp add: example_handler_def)
  from conciseness_gate [OF g1, THEN conjunct1] s1 c1 g2 s2 e
  have a: "calls (snd (invoke_gemini verbose_env example_handler (ustr ''q''))) =
      [GenerateContent (ustr ''q'') GEMINI_TEMPERATURE 800,
       GenerateContent (summarization_request @ ustr ''a. b. c. d. e. f'') float_0_3 400]"
    and b: "fst (invoke_gemini verbose_env example_handler (ustr ''q'')) = ustr ''Short.''"
    by simp_all
  have k: "snd (invoke_gemini verbose_env example_handler (ustr ''q'')) =
      example_handler\<lparr>calls := calls (snd (invoke_gemini verbose_env example_handler (ustr ''q'')))\<rparr>"
    by (simp add: invoke_gemini_def Let_def record_call_def split: sum.split)
  from conciseness_gate [OF g3, THEN conjunct2] s3 c3
  have c: "invoke_gemini ?E2 example_handler (ustr ''q'') =
     (ustr ''Twenty days.'', record_call (GenerateContent (ustr ''q'') GEMINI_TEMPERATURE 800) example_handler)"
    by simp
  from a b k c show ?thesis by (simp add: prod_eq_iff)
qed

lemma policy_body_eq:
  assumes "query_policy E h query (map_of (user h) (ustr ''grade'')) = (r1, h1)"
    and "query_policy E h1 query (map_of (user h1) (ustr ''grade'')) = (r2, h2)"
  shows "policy_body E h query =
     (if is_blank r1
      then (if is_blank r2 then (Inr hr_fallback, h2) else (Inr (refine_policy_response E h2 r2), h2))
      else (Inr (refine_policy_response E h1 r1), h1))"
  using assms by (simp add: policy_body_def)

lemma handle_query_policy:
  assumes "spec_intent (normalized E query) = PolicyQuery"
    and "query_policy E h query (map_of (user h) (ustr ''grade'')) = (r1, h1)"
    and "query_policy E h1 query (map_of (user h1) (ustr ''grade'')) = (r2, h2)"
  shows "handle_query E h query =
     (if is_blank r1
      then (if is_blank r2 then (Inr hr_fallback, h2) else (Inr (refine_policy_response E h2 r2), h2))
      else (Inr (refine_policy_response E h1 r1), h1))"
  using assms(1) by (simp add: handle_query_routes policy_body_eq [OF assms(2,3)])

lemma hr_fallback_facts:
  "sublist hr_contact hr_fallback" "hr_fallback \<noteq> query_error e" "hr_fallback \<noteq> gemini_error e"
proof -
  have eq: "hr_fallback = ([129300] @ ustr '' I couldn'' @ [39] @
     ustr ''t find a clear answer to your question in the bank policies. '' @
     ustr ''Please contact HR at **'') @ hr_contact @
     ustr ''** for assistance, or try rephrasing your question.''"
    by (simp add: hr_fallback_def)
  show "sublist hr_contact hr_fallback" by (subst eq) (rule sublist_appendI)
  show "hr_fallback \<noteq> query_error e" by (simp add: hr_fallback_def query_error_def)
  show "hr_fallback \<noteq> gemini_error e" by (simp add: hr_fallback_def gemini_error_def ustr_def)
qed

text \<open>
  Claim C5. For a query with the intent \<open>PolicyQuery\<close> whose first synthesis result is
  empty or only whitespace, synthesis runs exactly once more (two retrievals in all); the
  answer is then the refined second result, or, when that is blank too, the fixed text that
  refers to HR, which holds the HR contact address and is none of the error texts.
\<close>

theorem empty_result_retry:
  assumes "spec_intent (normalized E query) = PolicyQuery"
    and "query_policy E h query (map_of (user h) (ustr ''grade'')) = (r1, h1)"
    and "is_blank r1"
    and "query_policy E h1 query (map_of (user h1) (ustr ''grade'')) = (r2, h2)"
  shows "handle_query E h query =
           (Inr (if is_blank r2 then hr_fallback else refine_policy_response E h2 r2), h2)
       \<and> retrieval_calls h2 = retrieval_calls h + 2
       \<and> sublist hr_contact hr_fallback
       \<and> (\<forall>e. hr_fallback \<noteq> query_error e \<and> hr_fallback \<noteq> gemini_error e)"
proof -
  have c: "has_chain h" using blank_needs_chain [of E h query "map_of (user h) (ustr ''grade'')"] assms(2,3) by simp
  have h1: "h1 = snd (query_policy E h query (map_of (user h) (ustr ''grade'')))"
    and h2: "h2 = snd (query_policy E h1 query (map_of (user h1) (ustr ''grade'')))"
    using assms(2,4) by simp_all
  have "retrieval_calls h1 = retrieval_calls h + 1"
    using c query_policy_counts [of E h query] h1 by simp
  moreover have "has_chain h1" using c h1 by simp
  then have "retrieval_calls h2 = retrieval_calls h1 + 1"
    using query_policy_counts [of E h1 query] h2 by simp
  ultimately have "retrieval_calls h2 = retrieval_calls h + 2" by simp
  then show ?thesis
    using assms(3) by (simp add: handle_query_policy [OF assms(1,2,4)] hr_fallback_facts)
qed

lemma example_policy_intent: "spec_intent (normalized example_env (ustr ''what about pay'')) = PolicyQuery"
  by (simp add: spec_intent_def balance_terms_def greeting_terms_def help_terms_def
      thanks_terms_def example_eval)

lemma example_policy_run:
  "query_policy example_env (example_handler\<lparr>calls := cs\<rparr>) (ustr ''what about pay'') g =
     ([], example_handler\<lparr>calls := cs @
        [RetrieverInvoke (ustr ''what about pay''),
         GenerateContent (ustr ''Annual leave is 20 days.'' @ [10] @ ustr ''what about pay'') GEMINI_TEMPERATURE 800,
         GenerateContent (summarization_request @ ustr ''a. b. c. d. e. f'') float_0_3 400]\<rparr>)"
  by (simp add: query_policy_def chain_invoke_def custom_retriever_def invoke_gemini_def
      example_env_def example_handler_def record_call_def py_count.simps
      ustr_def py_strip_def is_space_def)

theorem empty_result_retry_witness:
  "fst (handle_query example_env example_handler (ustr ''what about pay'')) = Inr hr_fallback \<and>
   retrieval_calls (snd (handle_query example_env example_handler (ustr ''what about pay''))) = 2"
proof -
  let ?q = "ustr ''what about pay''"
  let ?g = "map_of (user example_handler) (ustr ''grade'')"
  let ?h1 = "snd (query_policy example_env example_handler ?q ?g)"
  let ?g1 = "map_of (user ?h1) (ustr ''grade'')"
  let ?h2 = "snd (query_policy example_env ?h1 ?q ?g1)"
  have e: "example_handler = example_handler\<lparr>calls := []\<rparr>" by (simp add: example_handler_def)
  have r1: "query_policy example_env example_handler ?q ?g = ([], ?h1)"
    by (subst e, subst (2) e) (simp add: example_policy_run)
  have h1: "?h1 = example_handler\<lparr>calls := [] @
        [RetrieverInvoke (ustr ''what about pay''),
         GenerateContent (ustr ''Annual leave is 20 days.'' @ [10] @ ustr ''what about pay'') GEMINI_TEMPERATURE 800,
         GenerateContent (summarization_request @ ustr ''a. b. c. d. e. f'') float_0_3 400]\<rparr>"
    by (subst e) (simp add: example_policy_run)
  have r2: "query_policy example_env ?h1 ?q ?g1 = ([], ?h2)"
    by (subst h1, subst (2) h1) (simp add: example_policy_run)
  have b: "is_blank []" by (simp add: is_blank_def)
  have z: "retrieval_calls example_handler = 0" by (simp add: retrieval_calls_def example_handler_def)
  from empty_result_retry [OF example_policy_intent r1 b r2] b z show ?thesis by simp
qed

lemma handle_leave_application_calls:
  "\<exists>cs. calls (snd (handle_leave_application E h nq)) = calls h @ cs \<and>
        (\<forall>c\<in>set cs. \<not> is_llm_call c \<and> \<not> is_retrieval_call c)"
proof (cases "find_days (float_of E) (py_split nq)")
  case None
  then show ?thesis by (simp add: leave_guidance_when_none)
next
  case (Some d)
  show ?thesis
  proof (cases "float_is_zero d")
    case True
    with Some show ?thesis by (simp add: leave_guidance_when_zero)
  next
    case False
    show ?thesis
    proof (cases "map_of (user h) (ustr ''username'')")
      case None
      with Some False show ?thesis
        by (simp add: handle_leave_application_def leave_application_body_def)
    next
      case (Some username)
      note b = leave_body_found [OF \<open>find_days (float_of E) (py_split nq) = Some d\<close> False Some]
      show ?thesis
      proof (cases "apply_for_leave E (calls h) username d")
        case (Inl e)
        then show ?thesis by (cases e) (simp_all add: handle_leave_application_def b)
      next
        case (Inr success)
        then show ?thesis
          using calls_refresh_user_data [of E "record_call (ApplyForLeave username d) h"]
          by (cases success) (auto simp: handle_leave_application_def b)
      qed
    qed
  qed
qed

lemma counts_append_other:
  assumes "calls h' = calls h @ cs" "\<forall>c\<in>set cs. \<not> is_llm_call c \<and> \<not> is_retrieval_call c"
  shows "llm_calls h' = llm_calls h" "retrieval_calls h' = retrieval_calls h"
  using assms by (simp_all add: llm_calls_def retrieval_calls_def length_filter_none)

lemma other_intents_counts:
  assumes "spec_intent (normalized E query) \<noteq> PolicyQuery"
  shows "llm_calls (snd (handle_query E h query)) = llm_calls h \<and>
         retrieval_calls (snd (handle_query E h query)) = retrieval_calls h"
proof (cases "spec_intent (normalized E query)")
  case LeaveApply
  obtain cs where "calls (snd (handle_leave_application E h (normalized E query))) = calls h @ cs"
    "\<forall>c\<in>set cs. \<not> is_llm_call c \<and> \<not> is_retrieval_call c"
    using handle_leave_application_calls [of E h "normalized E query"] by auto
  then show ?thesis
    using LeaveApply counts_append_other
    by (simp add: handle_query_routes split: prod.split) (metis snd_conv)
next
  case LeaveBalance
  have "\<exists>cs. calls (refresh_user_data E h) = calls h @ cs \<and>
      (\<forall>c\<in>set cs. \<not> is_llm_call c \<and> \<not> is_retrieval_call c)"
    using calls_refresh_user_data [of E h] by auto
  then show ?thesis
    using LeaveBalance counts_append_other by (auto simp: handle_query_routes Let_def)
next
  case Greeting
  then show ?thesis by (simp add: handle_query_routes split: option.split)
next
  case Help
  then show ?thesis by (simp add: handle_query_routes)
next
  case Thanks
  then show ?thesis by (simp add: handle_query_routes)
next
  case PolicyQuery
  with assms show ?thesis by simp
qed

lemma policy_counts:
  assumes "spec_intent (normalized E query) = PolicyQuery"
  shows "retrieval_calls (snd (handle_query E h query)) \<le> retrieval_calls h + 2 \<and>
         llm_calls (snd (handle_query E h query)) \<le> llm_calls h + 4"
proof -
  let ?g = "map_of (user h) (ustr ''grade'')"
  let ?r1 = "fst (query_policy E h query ?g)" and ?h1 = "snd (query_policy E h query ?g)"
  let ?g1 = "map_of (user ?h1) (ustr ''grade'')"
  let ?r2 = "fst (query_policy E ?h1 query ?g1)" and ?h2 = "snd (query_policy E ?h1 query ?g1)"
  have a: "query_policy E h query ?g = (?r1, ?h1)" and b: "query_policy E ?h1 query ?g1 = (?r2, ?h2)"
    by simp_all
  have c1: "retrieval_calls ?h1 \<le> retrieval_calls h + 1" "llm_calls ?h1 \<le> llm_calls h + 2"
    using query_policy_counts [of E h query ?g] by simp_all
  have c2: "retrieval_calls ?h2 \<le> retrieval_calls ?h1 + 1" "llm_calls ?h2 \<le> llm_calls ?h1 + 2"
    using query_policy_counts [of E ?h1 query ?g1] by simp_all
  have "snd (handle_query E h query) = ?h1 \<or> snd (handle_query E h query) = ?h2"
    by (simp add: handle_query_policy [OF assms a b])
  then show ?thesis using c1 c2 by auto
qed

text \<open>
  Claim C7, amended. One run of \<open>query_policy\<close> makes at most one retrieval call and at
  most two model calls (the primary one and the summarization). \<open>handle_query\<close> runs it at
  most twice, the second time when the first result is blank, so one invocation makes at
  most two retrieval calls and at most four model calls; a query of any other intent makes
  none.
\<close>

theorem call_budget:
  "retrieval_calls (snd (handle_query E h query)) \<le> retrieval_calls h + 2 \<and>
   llm_calls (snd (handle_query E h query)) \<le> llm_calls h + 4 \<and>
   (spec_intent (normalized E query) \<noteq> PolicyQuery \<longrightarrow>
      retrieval_calls (snd (handle_query E h query)) = retrieval_calls h \<and>
      llm_calls (snd (handle_query E h query)) = llm_calls h) \<and>
   retrieval_calls (snd (query_policy E h query g)) \<le> retrieval_calls h + 1 \<and>
   llm_calls (snd (query_policy E h query g)) \<le> llm_calls h + 2"
proof (cases "spec_intent (normalized E query) = PolicyQuery")
  case True
  then show ?thesis using policy_counts [of E query h] query_policy_counts [of E h query g] by simp
next
  case False
  then show ?thesis using other_intents_counts [of E query h] query_policy_counts [of E h query g] by simp
qed

theorem call_budget_witness:
  "retrieval_calls (snd (handle_query example_env example_handler (ustr ''hello''))) = 0 \<and>
   llm_calls (snd (handle_query example_env example_handler (ustr ''hello''))) = 0"
proof -
  have i: "spec_intent (normalized example_env (ustr ''hello'')) \<noteq> PolicyQuery"
    by (simp add: spec_intent_def balance_terms_def greeting_terms_def example_eval)
  have z: "retrieval_calls example_handler = 0" "llm_calls example_handler = 0"
    by (simp_all add: retrieval_calls_def llm_calls_def example_handler_def)
  from call_budget [of example_env example_handler "ustr ''hello''" None] i z
  show ?thesis by simp
qed

text \<open>
  The claim as it stands fails when the summary of a long primary answer comes back empty:
  the retry follows the summarization, and the invocation makes two retrieval calls and four
  model calls.
\<close>

theorem call_budget_counterexample:
  "llm_calls example_handler = 0 \<and> retrieval_calls example_handler = 0 \<and>
   llm_calls (snd (handle_query example_env example_handler (ustr ''what about pay''))) = 4 \<and>
   retrieval_calls (snd (handle_query example_env example_handler (ustr ''what about pay''))) = 2"
proof -
  let ?q = "ustr ''what about pay''"
  let ?c = "[RetrieverInvoke ?q,
         GenerateContent (ustr ''Annual leave is 20 days.'' @ [10] @ ?q) GEMINI_TEMPERATURE 800,
         GenerateContent (summarization_request @ ustr ''a. b. c. d. e. f'') float_0_3 400]"
  have e: "example_handler = example_handler\<lparr>calls := []\<rparr>" by (simp add: example_handler_def)
  have r1: "query_policy example_env example_handler ?q g = ([], example_handler\<lparr>calls := [] @ ?c\<rparr>)" for g
    by (subst e) (simp only: example_policy_run)
  have r2: "query_policy example_env (example_handler\<lparr>calls := [] @ ?c\<rparr>) ?q g =
      ([], example_handler\<lparr>calls := ([] @ ?c) @ ?c\<rparr>)" for g
    by (simp only: example_policy_run)
  have "handle_query example_env example_handler ?q =
      (Inr hr_fallback, example_handler\<lparr>calls := ([] @ ?c) @ ?c\<rparr>)"
    by (simp add: handle_query_policy [OF example_policy_intent r1 r2] is_blank_def)
  then show ?thesis
    by (simp add: llm_calls_def retrieval_calls_def example_handler_def)
qed

section \<open>The response refiner\<close>

lemma py_lower_ascii_part:
  assumes "\<forall>c\<in>set a. c < 128" "sublist t (map ascii_lower a)"
  shows "sublist t (py_lower L (x @ a @ y))"
proof -
  have "py_lower L (x @ a @ y) =
      lower_from L (x @ a @ y) 0 x @ map ascii_lower a @
      lower_from L (x @ a @ y) (length x + length a) y"
    using assms(1) by (simp add: py_lower_def lower_from_append lower_from_ascii)
  moreover obtain p s where "map ascii_lower a = p @ t @ s"
    using assms(2) by (auto simp: sublist_def)
  ultimately have "py_lower L (x @ a @ y) =
      (lower_from L (x @ a @ y) 0 x @ p) @ t @
      (s @ lower_from L (x @ a @ y) (length x + length a) y)"
    by simp
  then show ?thesis by (metis sublist_appendI)
qed

lemma balance_line_mentions_leave:
  "sublist (ustr ''leave'') (py_lower L (x @ balance_line remaining))"
proof -
  have a: "\<forall>c\<in>set (ustr '' **Your current leave balance:** ''). c < 128"
    by (simp add: ustr_def)
  have b: "sublist (ustr ''leave'') (map ascii_lower (ustr '' **Your current leave balance:** ''))"
    by (simp add: ustr_def ascii_lower_def sublist_code prefix_code)
  have "x @ balance_line remaining =
      (x @ [10, 10, 128188]) @ ustr '' **Your current leave balance:** '' @ (remaining @ ustr '' days'')"
    by (simp add: balance_line_def)
  then show ?thesis using py_lower_ascii_part [OF a b] by metis
qed

lemma balance_line_last: "balance_line remaining \<noteq> [] \<and> \<not> is_space (last (balance_line remaining))"
  by (simp add: balance_line_def ustr_def is_space_def)

lemma strip_with_balance_line:
  assumes "py_strip answer \<noteq> []"
  shows "py_strip (answer @ balance_line remaining) = dropWhile is_space answer @ balance_line remaining"
proof -
  obtain c where c: "c \<in> set answer" "\<not> is_space c"
    using assms by (auto simp: py_strip_Nil_iff)
  have "py_strip (answer @ balance_line remaining) = dropWhile is_space (answer @ balance_line remaining)"
    using balance_line_last by (simp add: py_strip_keeps_last)
  also have "\<dots> = dropWhile is_space answer @ balance_line remaining"
    using c by (rule dropWhile_append1)
  finally show ?thesis .
qed

text \<open>
  Claim C6, amended. Applied to an answer that is not blank and mentions \<open>leave\<close> in any
  casing, with a user record that has \<open>remaining_leaves\<close>, the refiner returns the answer
  without its leading whitespace followed by exactly one balance line. It is not idempotent:
  applied to its own result it appends the balance line a second time.
\<close>

theorem refine_appends_each_time:
  assumes "py_strip answer \<noteq> []"
    and "sublist (ustr ''leave'') (py_lower (lower_table E) answer)"
    and "map_of (user h) (ustr ''remaining_leaves'') = Some remaining"
  shows "refine_policy_response E h answer = dropWhile is_space answer @ balance_line remaining
       \<and> refine_policy_response E h (refine_policy_response E h answer) =
           dropWhile is_space answer @ balance_line remaining @ balance_line remaining"
proof -
  let ?once = "dropWhile is_space answer @ balance_line remaining"
  have ne: "answer \<noteq> []" using assms(1) by (auto simp: py_strip_def)
  have one: "refine_policy_response E h answer = ?once"
    using assms ne by (simp add: refine_policy_response_def strip_with_balance_line)
  obtain c where c: "c \<in> set answer" "\<not> is_space c"
    using assms(1) by (auto simp: py_strip_Nil_iff)
  then have d: "dropWhile is_space answer \<noteq> []" by (auto simp: dropWhile_eq_Nil_conv)
  then have hd: "\<not> is_space (hd (dropWhile is_space answer))" by (rule hd_dropWhile)
  have "hd (dropWhile is_space answer) \<in> set ?once" using d by simp
  then have s: "py_strip ?once \<noteq> []"
    using hd unfolding py_strip_Nil_iff by blast
  have dd: "dropWhile is_space ?once = ?once"
    using d hd by (cases "dropWhile is_space answer") auto
  have "py_strip (?once @ balance_line remaining) = dropWhile is_space ?once @ balance_line remaining"
    using s by (rule strip_with_balance_line)
  then have "py_strip (?once @ balance_line remaining) = ?once @ balance_line remaining"
    by (simp only: dd)
  moreover have "sublist (ustr ''leave'') (py_lower (lower_table E) ?once)"
    by (rule balance_line_mentions_leave)
  ultimately have "refine_policy_response E h ?once = ?once @ balance_line remaining"
    using s assms(3) d by (auto simp: refine_policy_response_def)
  with one show ?thesis by simp
qed


theorem refine_appends_each_time_witness:
  "refine_policy_response example_env example_handler (ustr '' Annual leave is 20 days.'') =
     ustr ''Annual leave is 20 days.'' @ balance_line (ustr ''5'')"
proof -
  let ?a = "ustr '' Annual leave is 20 days.''"
  have 1: "py_strip ?a \<noteq> []" by (simp add: py_strip_def ustr_def is_space_def)
  have 2: "sublist (ustr ''leave'') (py_lower (lower_table example_env) ?a)"
    by (simp add: py_lower_def ustr_def ascii_lower_def sublist_code prefix_code)
  have 3: "map_of (user example_handler) (ustr ''remaining_leaves'') = Some (ustr ''5'')"
    by (simp add: example_handler_def example_user_def ustr_def)
  have 4: "dropWhile is_space ?a = ustr ''Annual leave is 20 days.''"
    by (simp add: ustr_def is_space_def)
  from refine_appends_each_time [OF 1 2 3, THEN conjunct1] 4 show ?thesis by simp
qed

text \<open>
  The claim as it stands fails on the answer \<open>leave\<close>: the second application adds a second
  balance line.
\<close>

theorem refine_idempotent_counterexample:
  "refine_policy_response example_env example_handler (ustr ''leave'') =
     ustr ''leave'' @ balance_line (ustr ''5'') \<and>
   refine_policy_response example_env example_handler
       (refine_policy_response example_env example_handler (ustr ''leave'')) =
     ustr ''leave'' @ balance_line (ustr ''5'') @ balance_line (ustr ''5'') \<and>
   refine_policy_response example_env example_handler
       (refine_policy_response example_env example_handler (ustr ''leave'')) \<noteq>
     refine_policy_response example_env example_handler (ustr ''leave'')"
proof -
  have 1: "refine_policy_response example_env example_handler (ustr ''leave'') =
     ustr ''leave'' @ balance_line (ustr ''5'')"
    by (simp add: refine_policy_response_def balance_line_def example_env_def example_handler_def
        example_user_def ustr_def py_strip_def is_space_def py_lower_def ascii_lower_def
        sublist_code prefix_code)
  have 2: "refine_policy_response example_env example_handler (ustr ''leave'' @ balance_line (ustr ''5'')) =
     ustr ''leave'' @ balance_line (ustr ''5'') @ balance_line (ustr ''5'')"
    by (simp add: refine_policy_response_def balance_line_def example_env_def example_handler_def
        example_user_def ustr_def py_strip_def is_space_def py_lower_def ascii_lower_def
        sublist_code prefix_code)
  have 3: "balance_line (ustr ''5'') \<noteq> []" by (simp add: balance_line_def)
  show ?thesis using 3 by (simp add: 1 2)
qed

section \<open>The entry point\<close>

lemma ustr_nonempty [simp]: "ustr (c # cs) \<noteq> []"
  by (simp add: ustr_def)

lemma refine_nonempty: "refine_policy_response E h response \<noteq> []" if "\<not> is_blank response"
proof -
  from that obtain c where c: "c \<in> set response" "\<not> is_space c"
    by (auto simp: is_blank_def py_strip_Nil_iff)
  then have "py_strip response \<noteq> []" "py_strip (response @ balance_line remaining) \<noteq> []" for remaining
    by (auto simp: py_strip_Nil_iff)
  then show ?thesis
    using that by (simp add: refine_policy_response_def is_blank_def split: option.split)
qed

lemma leave_text_nonempty: "fst (handle_leave_application E h nq) \<noteq> []"
  by (simp add: handle_leave_application_def leave_application_body_def usage_guidance_def
      leave_submitted_def leave_failed_def Let_def
      split: option.split sum.split pyexn.split prod.split)

lemma policy_text_nonempty:
  "\<exists>text. fst (policy_body E h query) = Inr text \<and> text \<noteq> []"
proof -
  have "hr_fallback \<noteq> []" by (simp add: hr_fallback_def)
  then show ?thesis
    by (simp add: policy_body_def refine_nonempty split: prod.split)
qed

text \<open>
  Claim C1. For every query and every user record that has a username, whatever the
  collaborators answer or raise, \<open>handle_query\<close> returns a text that is not empty and no
  exception leaves it.
\<close>

theorem handle_query_returns_text:
  assumes "map_of (user h) (ustr ''username'') = Some username"
  shows "\<exists>text. fst (handle_query E h query) = Inr text \<and> text \<noteq> []"
proof (cases "spec_intent (normalized E query)")
  case LeaveApply
  then show ?thesis
    using leave_text_nonempty [of E h "normalized E query"]
    by (auto simp: handle_query_routes split: prod.split)
next
  case LeaveBalance
  then show ?thesis by (simp add: handle_query_routes balance_reply_def Let_def)
next
  case Greeting
  then show ?thesis using assms by (simp add: handle_query_routes greeting_reply_def)
next
  case Help
  then show ?thesis by (simp add: handle_query_routes help_response_def)
next
  case Thanks
  then show ?thesis by (simp add: handle_query_routes thanks_reply_def)
next
  case PolicyQuery
  obtain reply where "fst (policy_body E h query) = Inr reply" "reply \<noteq> []"
    using policy_text_nonempty by blast
  then show ?thesis
    using PolicyQuery by (simp add: handle_query_routes split: prod.split) (metis fst_conv sum.simps(6))
qed

theorem handle_query_returns_text_witness:
  "fst (handle_query example_env example_handler (ustr ''Hello'')) = Inr (greeting_reply (ustr ''alice''))
   \<and> greeting_reply (ustr ''alice'') \<noteq> []"
proof -
  have u: "map_of (user example_handler) (ustr ''username'') = Some (ustr ''alice'')"
    by (simp add: example_eval)
  have "fst (handle_query example_env example_handler (ustr ''Hello'')) = Inr (greeting_reply (ustr ''alice''))"
    by (simp add: handle_query_def greeting_terms_def balance_terms_def example_eval)
  with handle_query_returns_text [OF u, of example_env "ustr ''Hello''"] show ?thesis by auto
qed

end
